theory Spec2Isabelle
  imports Complex_Main "HOL-Library.Log_Nat"
begin

section \<open>Python values as the logger observes them\<close>

text \<open>
  The logger of \<^verbatim>\<open>experiments/motia/src/python/logger.py\<close> takes a message and an
  optional extra value of any type (\<^verbatim>\<open>Optional[Any]\<close>). To the extra value it applies
  its truth test (\<^verbatim>\<open>if args:\<close>), the lookup of \<^verbatim>\<open>__dict__\<close> (\<^verbatim>\<open>hasattr\<close>, then
  \<^verbatim>\<open>vars\<close>) and \<^verbatim>\<open>isinstance(args, dict)\<close>; the value it merges goes through
  \<^verbatim>\<open>dict.update\<close>.

  A dictionary is an association list in insertion order, as a Python \<^verbatim>\<open>dict\<close>
  keeps its items; its keys are strings, as in the annotation \<^verbatim>\<open>Dict[str, Any]\<close> of
  \<^verbatim>\<open>_log\<close>, and distinct.

  \<^verbatim>\<open>dict.update(v)\<close> either reads items from \<open>v\<close> (a dict, another mapping, an
  iterable of key/value pairs) or raises (\<^verbatim>\<open>TypeError\<close> for the integer 5,
  \<^verbatim>\<open>ValueError\<close> for the string \<^verbatim>\<open>"ab"\<close>): an \<open>update_source\<close> is a value as
  \<^verbatim>\<open>dict.update\<close> sees it. A \<open>probe\<close> is the outcome of a test that may find
  nothing, raise, or find something.
\<close>

datatype pyerror = ValueError | TypeError | RuntimeError

datatype 'v update_source = Items "(string \<times> 'v) list" | Rejected pyerror

datatype 'a probe = Absent | Fails pyerror | Present 'a

text \<open>
  \<open>PObj\<close> stands for every object that is none of the builtin values before it, given
  by the outcomes of the three things the logger does to it:
  \<^item> its truth test, the result of the \<^verbatim>\<open>__bool__\<close> or \<^verbatim>\<open>__len__\<close> of its class
    (\<open>True\<close> when the class has neither), which may be an exception, as it is for a
    numpy array of several elements;
  \<^item> the lookup of its attribute \<^verbatim>\<open>__dict__\<close>: absent (also when the lookup raises
    \<^verbatim>\<open>AttributeError\<close>), raising another exception, or present with a value, which
    need not be a dictionary when \<^verbatim>\<open>__dict__\<close> is a property;
  \<^item> the test \<^verbatim>\<open>isinstance(args, dict)\<close>: false, raising (a \<^verbatim>\<open>__class__\<close> property
    may), or true, and then the object itself as \<^verbatim>\<open>dict.update\<close> reads it.
  An instance of \<^verbatim>\<open>OrderedDict\<close>, \<^verbatim>\<open>Counter\<close> or of a plain subclass of
  \<^verbatim>\<open>dict\<close> has both an (empty) \<^verbatim>\<open>__dict__\<close> and items of its own.
\<close>

datatype pyval =
    PNone
  | PBool bool
  | PInt int
  | PFloat real
  | PStr string
  | PList "pyval list"
  | PTuple "pyval list"
  | PDict "(string \<times> pyval) list"
  | PObj "pyerror + bool" "pyval update_source probe" "pyval update_source probe"

type_synonym pydict = "(string \<times> pyval) list"

text \<open>The truth test of \<^verbatim>\<open>if args:\<close>.\<close>

fun py_bool :: "pyval \<Rightarrow> pyerror + bool" where
  "py_bool PNone = Inr False"
| "py_bool (PBool b) = Inr b"
| "py_bool (PInt i) = Inr (i \<noteq> 0)"
| "py_bool (PFloat x) = Inr (x \<noteq> 0)"
| "py_bool (PStr s) = Inr (s \<noteq> [])"
| "py_bool (PList xs) = Inr (xs \<noteq> [])"
| "py_bool (PTuple xs) = Inr (xs \<noteq> [])"
| "py_bool (PDict d) = Inr (d \<noteq> [])"
| "py_bool (PObj t a d) = t"

text \<open>The lookup of \<^verbatim>\<open>__dict__\<close>: no builtin value above has one.\<close>

fun dict_attr :: "pyval \<Rightarrow> pyval update_source probe" where
  "dict_attr (PObj t a d) = a"
| "dict_attr _ = Absent"

text \<open>
  \<^verbatim>\<open>hasattr(args, '__dict__')\<close> is false when the lookup raises
  \<^verbatim>\<open>AttributeError\<close> and lets every other exception through.
\<close>

definition hasattr_dict :: "pyval \<Rightarrow> pyerror + bool" where
  "hasattr_dict a =
     (case dict_attr a of Absent \<Rightarrow> Inr False | Fails e \<Rightarrow> Inl e | Present u \<Rightarrow> Inr True)"

text \<open>
  \<^verbatim>\<open>vars(args)\<close> returns whatever \<^verbatim>\<open>__dict__\<close> evaluates to, and raises
  \<^verbatim>\<open>TypeError\<close> on a value without \<^verbatim>\<open>__dict__\<close>.
\<close>

definition vars :: "pyval \<Rightarrow> pyerror + pyval update_source" where
  "vars a =
     (case dict_attr a of Absent \<Rightarrow> Inl TypeError | Fails e \<Rightarrow> Inl e | Present u \<Rightarrow> Inr u)"

text \<open>
  Whether a value is an instance of \<^verbatim>\<open>dict\<close>, and then the value as
  \<^verbatim>\<open>dict.update\<close> reads it.
\<close>

fun dict_probe :: "pyval \<Rightarrow> pyval update_source probe" where
  "dict_probe (PDict d) = Present (Items d)"
| "dict_probe (PObj t a d) = d"
| "dict_probe _ = Absent"

text \<open>\<^verbatim>\<open>isinstance(args, dict)\<close>.\<close>

definition isinstance_dict :: "pyval \<Rightarrow> pyerror + bool" where
  "isinstance_dict a =
     (case dict_probe a of Absent \<Rightarrow> Inr False | Fails e \<Rightarrow> Inl e | Present u \<Rightarrow> Inr True)"

text \<open>
  \<^verbatim>\<open>d[k] = v\<close> keeps the place of a key that is already there and appends a new
  one; \<^verbatim>\<open>d.update(e)\<close> stores the items of \<open>e\<close> in their order.
\<close>

fun dict_setitem :: "pydict \<Rightarrow> string \<Rightarrow> pyval \<Rightarrow> pydict" where
  "dict_setitem [] k v = [(k, v)]"
| "dict_setitem ((k', v') # d) k v =
     (if k' = k then (k', v) # d else (k', v') # dict_setitem d k v)"

fun dict_update :: "pydict \<Rightarrow> pydict \<Rightarrow> pydict" where
  "dict_update d [] = d"
| "dict_update d ((k, v) # e) = dict_update (dict_setitem d k v) e"

text \<open>\<^verbatim>\<open>d.update(v)\<close> for any value \<open>v\<close>, seen as an update source.\<close>

fun update_from :: "pydict \<Rightarrow> pyval update_source \<Rightarrow> pyerror + pydict" where
  "update_from d (Items e) = Inr (dict_update d e)"
| "update_from d (Rejected err) = Inl err"

section \<open>The clock\<close>

text \<open>
  \<^verbatim>\<open>time.time()\<close> returns a double and \<^verbatim>\<open>time.time() * 1000\<close> is the product of two
  doubles: the exact product rounded to the nearest double, ties to the even mantissa.
  A double has a mantissa of 53 bits: for \<open>2^b \<le> |x| < 2^(b+1)\<close> the doubles around
  \<open>x\<close> are the multiples of \<open>2^(b-52)\<close>, and of \<open>2^(-1074)\<close> below the normal
  range. The exponent has no upper bound here: a product is finite below
  \<open>2^1024\<close>, and the readings of a clock are far below that.
\<close>

definition binade :: "real \<Rightarrow> int" where
  "binade x =
     (if 1 \<le> \<bar>x\<bar> then bitlen \<lfloor>\<bar>x\<bar>\<rfloor> - 1 else - bitlen (\<lceil>1 / \<bar>x\<bar>\<rceil> - 1))"

definition round_half_even :: "real \<Rightarrow> int" where
  "round_half_even y =
     (let f = \<lfloor>y\<rfloor>; d = y - of_int f
      in if d < 1 / 2 then f else if 1 / 2 < d then f + 1 else if even f then f else f + 1)"

definition ulp_exp :: "real \<Rightarrow> int" where
  "ulp_exp x = max (binade x - 52) (- 1074)"

definition round_double :: "real \<Rightarrow> real" where
  "round_double x =
     (if x = 0 then 0
      else of_int (round_half_even (x / 2 powi ulp_exp x)) * 2 powi ulp_exp x)"

text \<open>\<^verbatim>\<open>x * y\<close> on doubles.\<close>

definition float_mul :: "real \<Rightarrow> real \<Rightarrow> real" where
  "float_mul x y = round_double (x * y)"

text \<open>\<^verbatim>\<open>int(x)\<close> of a float truncates towards zero.\<close>

definition int_of_float :: "real \<Rightarrow> int" where
  "int_of_float x = (if 0 \<le> x then \<lfloor>x\<rfloor> else \<lceil>x\<rceil>)"

text \<open>
  \<^verbatim>\<open>int(time.time() * 1000)\<close>, with the clock's reading \<open>now\<close> (seconds since the
  epoch, a double) as a parameter.
\<close>

definition time_ms :: "real \<Rightarrow> int" where
  "time_ms now = int_of_float (float_mul now 1000)"

section \<open>The sender\<close>

text \<open>
  Modelled from the spec: \<^verbatim>\<open>RpcSender\<close> (module \<^verbatim>\<open>rpc\<close>, imported by the logger
  and not part of the sources at hand). Its \<^verbatim>\<open>send_no_wait(event, payload)\<close> hands the
  named event to the transport, returns nothing and, by its contract, lets no failure
  reach its caller. The model records the calls it receives, in order.
\<close>

record RpcSender =
  sent :: "(string \<times> pydict) list"

definition send_no_wait :: "RpcSender \<Rightarrow> string \<Rightarrow> pydict \<Rightarrow> RpcSender" where
  "send_no_wait r event payload = r\<lparr>sent := sent r @ [(event, payload)]\<rparr>"

section \<open>The logger\<close>

record Logger =
  trace_id :: pyval
  flows :: pyval
  rpc :: RpcSender

text \<open>
  \<^verbatim>\<open>Logger.__init__\<close>: three assignments. Nothing is checked, so the fields hold
  whatever values the caller passed.
\<close>

definition Logger_init :: "pyval \<Rightarrow> pyval \<Rightarrow> RpcSender \<Rightarrow> Logger" where
  "Logger_init tid fl r = \<lparr>trace_id = tid, flows = fl, rpc = r\<rparr>"

text \<open>
  The \<^verbatim>\<open>if\<close>/\<^verbatim>\<open>elif\<close> chain of \<^verbatim>\<open>Logger._log\<close> that turns a truthy extra
  value into the value to merge: \<^verbatim>\<open>vars(args)\<close>, the one-entry dictionary
  \<^verbatim>\<open>{"data": args}\<close>, or \<^verbatim>\<open>args\<close> itself where neither test fired, which is then
  an instance of \<^verbatim>\<open>dict\<close>.
\<close>

definition normalize_args :: "pyval \<Rightarrow> pyerror + pyval update_source" where
  "normalize_args a =
     (case hasattr_dict a of
        Inl e \<Rightarrow> Inl e
      | Inr h \<Rightarrow>
          if h then vars a
          else (case isinstance_dict a of
                  Inl e \<Rightarrow> Inl e
                | Inr i \<Rightarrow>
                    if \<not> i then Inr (Items [(''data'', a)])
                    else (case dict_probe a of
                            Present u \<Rightarrow> Inr u
                          | _ \<Rightarrow> Inl TypeError)))"

text \<open>The dictionary literal \<^verbatim>\<open>Logger._log\<close> starts from: the five base fields.\<close>

definition base_entry :: "Logger \<Rightarrow> real \<Rightarrow> string \<Rightarrow> pyval \<Rightarrow> pydict" where
  "base_entry self now level message =
     [(''level'', PStr level),
      (''time'', PInt (time_ms now)),
      (''traceId'', trace_id self),
      (''flows'', flows self),
      (''msg'', message)]"

text \<open>The record \<^verbatim>\<open>Logger._log\<close> builds, up to the call of the sender.\<close>

definition log_entry :: "Logger \<Rightarrow> real \<Rightarrow> string \<Rightarrow> pyval \<Rightarrow> pyval \<Rightarrow> pyerror + pydict" where
  "log_entry self now level message a =
     (let entry = base_entry self now level message
      in case py_bool a of
           Inl e \<Rightarrow> Inl e
         | Inr b \<Rightarrow>
             if b then
               (case normalize_args a of
                  Inl e \<Rightarrow> Inl e
                | Inr u \<Rightarrow> update_from entry u)
             else Inr entry)"

text \<open>
  \<^verbatim>\<open>Logger._log\<close>: build the record, then one call of the sender. Before that call
  the method assigns only to its local variables, so when it raises the logger and the
  sender are as they were: the result \<open>Inl\<close> stands for the exception with the state
  unchanged.
\<close>

definition Logger_log :: "Logger \<Rightarrow> real \<Rightarrow> string \<Rightarrow> pyval \<Rightarrow> pyval \<Rightarrow> pyerror + Logger" where
  "Logger_log self now level message a =
     (case log_entry self now level message a of
        Inl e \<Rightarrow> Inl e
      | Inr entry \<Rightarrow> Inr (self\<lparr>rpc := send_no_wait (rpc self) ''log'' entry\<rparr>))"

text \<open>
  The four public methods. Their second parameter defaults to \<^verbatim>\<open>None\<close>: a call
  without it is the argument \<open>None\<close> of the model.
\<close>

definition default_none :: "pyval option \<Rightarrow> pyval" where
  "default_none a = (case a of None \<Rightarrow> PNone | Some v \<Rightarrow> v)"

definition info :: "Logger \<Rightarrow> real \<Rightarrow> pyval \<Rightarrow> pyval option \<Rightarrow> pyerror + Logger" where
  "info self now message a = Logger_log self now ''info'' message (default_none a)"

definition error :: "Logger \<Rightarrow> real \<Rightarrow> pyval \<Rightarrow> pyval option \<Rightarrow> pyerror + Logger" where
  "error self now message a = Logger_log self now ''error'' message (default_none a)"

definition debug :: "Logger \<Rightarrow> real \<Rightarrow> pyval \<Rightarrow> pyval option \<Rightarrow> pyerror + Logger" where
  "debug self now message a = Logger_log self now ''debug'' message (default_none a)"

definition warn :: "Logger \<Rightarrow> real \<Rightarrow> pyval \<Rightarrow> pyval option \<Rightarrow> pyerror + Logger" where
  "warn self now message a = Logger_log self now ''warn'' message (default_none a)"

section \<open>Calls and sequences of calls\<close>

text \<open>
  A call names one of the four methods, and \<open>invoke\<close> dispatches it. \<open>run\<close> makes a
  sequence of calls on one logger, for a caller that catches what a call raises and goes
  on: after a call that raised, the logger and its sender are as before that call.
\<close>

datatype severity = Info | Error | Debug | Warn

fun method_name :: "severity \<Rightarrow> string" where
  "method_name Info = ''info''"
| "method_name Error = ''error''"
| "method_name Debug = ''debug''"
| "method_name Warn = ''warn''"

fun invoke :: "severity \<Rightarrow> Logger \<Rightarrow> real \<Rightarrow> pyval \<Rightarrow> pyval option \<Rightarrow> pyerror + Logger" where
  "invoke Info self now message a = info self now message a"
| "invoke Error self now message a = error self now message a"
| "invoke Debug self now message a = debug self now message a"
| "invoke Warn self now message a = warn self now message a"

record call =
  call_method :: severity
  call_now :: real
  call_message :: pyval
  call_args :: "pyval option"

definition call_result :: "Logger \<Rightarrow> call \<Rightarrow> pyerror + Logger" where
  "call_result self c = invoke (call_method c) self (call_now c) (call_message c) (call_args c)"

definition call_returns :: "Logger \<Rightarrow> call \<Rightarrow> bool" where
  "call_returns self c = (case call_result self c of Inl e \<Rightarrow> False | Inr self' \<Rightarrow> True)"

definition after_call :: "Logger \<Rightarrow> pyerror + Logger \<Rightarrow> Logger" where
  "after_call self r = (case r of Inl e \<Rightarrow> self | Inr self' \<Rightarrow> self')"

fun run :: "Logger \<Rightarrow> call list \<Rightarrow> Logger" where
  "run self [] = self"
| "run self (c # cs) = run (after_call self (call_result self c)) cs"

text \<open>The logger after one dispatch of a payload: only the sender's record grows.\<close>

definition dispatched :: "Logger \<Rightarrow> pydict \<Rightarrow> Logger" where
  "dispatched self payload = self\<lparr>rpc := (rpc self)\<lparr>sent := sent (rpc self) @ [(''log'', payload)]\<rparr>\<rparr>"

text \<open>
  The items the merge step of one call writes into the record: none when the extra value
  is falsy or the call raises, else the items read from the normalised value.
\<close>

definition merged_items :: "pyval \<Rightarrow> pydict" where
  "merged_items a =
     (if py_bool a = Inr True
      then (case normalize_args a of Inr (Items d) \<Rightarrow> d | _ \<Rightarrow> [])
      else [])"

text \<open>The keys the merge step of a call writes, for an optional extra argument.\<close>

definition extra_keys :: "pyval option \<Rightarrow> string set" where
  "extra_keys a = fst ` set (merged_items (default_none a))"


text \<open>
  The payload one call dispatches when it returns, and the payloads a logger's sender
  has received since an earlier state of the logger.
\<close>

definition call_payload :: "Logger \<Rightarrow> call \<Rightarrow> pydict" where
  "call_payload self c =
     dict_update (base_entry self (call_now c) (method_name (call_method c)) (call_message c))
       (merged_items (default_none (call_args c)))"

definition new_payloads :: "Logger \<Rightarrow> Logger \<Rightarrow> pydict list" where
  "new_payloads self self' = map snd (drop (length (sent (rpc self))) (sent (rpc self')))"

text \<open>
  Example values for the closed statements below: a logger; an object whose truth test
  raises and that has no \<^verbatim>\<open>__dict__\<close>, as a numpy array of several elements; the
  instance \<^verbatim>\<open>OrderedDict(msg="overridden")\<close>, truthy, with an empty
  \<^verbatim>\<open>__dict__\<close> and one item; a truthy object whose \<^verbatim>\<open>__dict__\<close> is a property
  that returns the integer 5; and the double nearest to \<open>4.35\<close>.
\<close>

definition example_logger :: Logger where
  "example_logger = Logger_init (PStr ''t1'') (PList [PStr ''f1'']) \<lparr>sent = []\<rparr>"

definition raising_object :: pyval where
  "raising_object = PObj (Inl ValueError) Absent Absent"


definition odd_dict_object :: pyval where
  "odd_dict_object = PObj (Inr True) (Present (Rejected TypeError)) Absent"

definition double_4_35 :: real where
  "double_4_35 = 2448832297382707 / 2 ^ 49"

section \<open>Rounding to the nearest double\<close>

lemma bitlen_ge1: "0 < n \<Longrightarrow> 1 \<le> bitlen n"
  by (auto simp: bitlen_alt_def)

lemma binade_bounds_ge1:
  assumes "1 \<le> \<bar>x\<bar>"
  shows "2 powi binade x \<le> \<bar>x\<bar>" and "\<bar>x\<bar> < 2 powi (binade x + 1)"
proof -
  let ?n = "\<lfloor>\<bar>x\<bar>\<rfloor>"
  have n: "0 < ?n" using assms by simp
  have k: "1 \<le> bitlen ?n" using n by (rule bitlen_ge1)
  have b: "binade x = bitlen ?n - 1" using assms by (simp add: binade_def)
  from bitlen_bounds [OF n]
  have lo: "(2::int) ^ nat (bitlen ?n - 1) \<le> ?n" and hi: "?n < 2 ^ nat (bitlen ?n)" by simp_all
  have "2 powi binade x = (2::real) ^ nat (bitlen ?n - 1)"
    using k b by (simp add: power_int_nonneg_exp)
  also have "\<dots> = of_int (2 ^ nat (bitlen ?n - 1))" by simp
  also have "\<dots> \<le> of_int ?n" using lo by (simp only: of_int_le_iff)
  also have "\<dots> \<le> \<bar>x\<bar>" by simp
  finally show "2 powi binade x \<le> \<bar>x\<bar>" .
  have "?n + 1 \<le> 2 ^ nat (bitlen ?n)" using hi by simp
  then have "real_of_int (?n + 1) \<le> of_int (2 ^ nat (bitlen ?n))" by (simp only: of_int_le_iff)
  then have "real_of_int ?n + 1 \<le> 2 ^ nat (bitlen ?n)" by simp
  moreover have "\<bar>x\<bar> < real_of_int ?n + 1" by linarith
  ultimately have "\<bar>x\<bar> < (2::real) ^ nat (bitlen ?n)" by linarith
  also have "\<dots> = 2 powi (binade x + 1)"
    using k b by (simp add: power_int_nonneg_exp)
  finally show "\<bar>x\<bar> < 2 powi (binade x + 1)" .
qed

lemma binade_bounds_lt1:
  assumes "x \<noteq> 0" "\<bar>x\<bar> < 1"
  shows "2 powi binade x \<le> \<bar>x\<bar>" and "\<bar>x\<bar> < 2 powi (binade x + 1)"
proof -
  let ?y = "1 / \<bar>x\<bar>"
  let ?m = "\<lceil>?y\<rceil> - 1"
  have x: "0 < \<bar>x\<bar>" using assms by simp
  have y: "1 < ?y" using assms x by (simp add: field_simps)
  have m: "0 < ?m" using y by linarith
  let ?k = "bitlen ?m"
  have k: "1 \<le> ?k" using m by (rule bitlen_ge1)
  have b: "binade x = - ?k" using assms by (simp add: binade_def)
  from bitlen_bounds [OF m]
  have lo: "(2::int) ^ nat (?k - 1) \<le> ?m" and hi: "?m < 2 ^ nat ?k" by simp_all
  have "?m + 1 \<le> 2 ^ nat ?k" using hi by simp
  then have "real_of_int (?m + 1) \<le> of_int (2 ^ nat ?k)" by (simp only: of_int_le_iff)
  then have "real_of_int ?m + 1 \<le> 2 ^ nat ?k" by simp
  moreover have "?y \<le> real_of_int ?m + 1" by linarith
  ultimately have yhi: "?y \<le> (2::real) ^ nat ?k" by linarith
  have "real_of_int (2 ^ nat (?k - 1)) \<le> of_int ?m" using lo by (simp only: of_int_le_iff)
  then have "(2::real) ^ nat (?k - 1) \<le> real_of_int ?m" by simp
  moreover have "real_of_int ?m < ?y" by linarith
  ultimately have ylo: "(2::real) ^ nat (?k - 1) < ?y" by linarith
  have "2 powi binade x = 1 / (2::real) ^ nat ?k"
    using k b by (simp add: power_int_minus_divide power_int_nonneg_exp)
  also have "\<dots> \<le> \<bar>x\<bar>"
    using yhi x by (simp add: field_simps)
  finally show "2 powi binade x \<le> \<bar>x\<bar>" .
  have e: "(2::real) powi (- (?k - 1)) = 1 / 2 powi (?k - 1)"
    by (rule power_int_minus_divide)
  have "\<bar>x\<bar> < 1 / (2::real) ^ nat (?k - 1)"
    using ylo x by (simp add: field_simps)
  also have "\<dots> = 1 / 2 powi (?k - 1)"
    using k by (simp add: power_int_nonneg_exp)
  also have "\<dots> = 2 powi (- (?k - 1))" using e by simp
  also have "- (?k - 1) = binade x + 1" using b by simp
  finally show "\<bar>x\<bar> < 2 powi (binade x + 1)" .
qed

lemma binade_bounds:
  assumes "x \<noteq> 0"
  shows "2 powi binade x \<le> \<bar>x\<bar>" and "\<bar>x\<bar> < 2 powi (binade x + 1)"
  using assms binade_bounds_ge1 [of x] binade_bounds_lt1 [of x]
  by (cases "1 \<le> \<bar>x\<bar>"; simp)+

lemma binade_mono:
  assumes "x \<noteq> 0" "\<bar>x\<bar> \<le> \<bar>y\<bar>"
  shows "binade x \<le> binade y"
proof (rule ccontr)
  assume "\<not> binade x \<le> binade y"
  then have "binade y + 1 \<le> binade x" by simp
  then have "(2::real) powi (binade y + 1) \<le> 2 powi binade x"
    by (intro power_int_increasing) simp_all
  moreover have "y \<noteq> 0" using assms by auto
  ultimately have "\<bar>y\<bar> < \<bar>x\<bar>"
    using binade_bounds(2) [of y] binade_bounds(1) [of x] assms(1) by linarith
  then show False using assms(2) by simp
qed

lemma round_half_even_bounds: "\<lfloor>y\<rfloor> \<le> round_half_even y" "round_half_even y \<le> \<lfloor>y\<rfloor> + 1"
  by (simp_all add: round_half_even_def Let_def)

lemma round_half_even_of_int [simp]: "round_half_even (of_int n) = n"
  by (simp add: round_half_even_def)

lemma round_half_even_mono:
  assumes "a \<le> b"
  shows "round_half_even a \<le> round_half_even b"
proof (cases "\<lfloor>a\<rfloor> = \<lfloor>b\<rfloor>")
  case True
  then show ?thesis
    using assms by (auto simp: round_half_even_def Let_def)
next
  case False
  then have "\<lfloor>a\<rfloor> + 1 \<le> \<lfloor>b\<rfloor>"
    using floor_mono [OF assms] by simp
  then show ?thesis
    using round_half_even_bounds(2) [of a] round_half_even_bounds(1) [of b] by linarith
qed

lemma round_half_even_uminus: "round_half_even (- y) = - round_half_even y"
proof (cases "y = of_int \<lfloor>y\<rfloor>")
  case True
  then obtain n where "y = of_int n" ..
  then have "- y = of_int (- n)" by simp
  then show ?thesis
    using \<open>y = of_int n\<close> by (simp only: round_half_even_of_int)
next
  case False
  then have lt: "of_int \<lfloor>y\<rfloor> < y" using of_int_floor_le [of y] by linarith
  have "\<lfloor>- y\<rfloor> = - \<lfloor>y\<rfloor> - 1"
    using lt by (intro floor_unique) (auto, linarith+)
  then show ?thesis
    using lt by (auto simp: round_half_even_def Let_def)
qed

lemma round_half_even_le: "y \<le> of_int n \<Longrightarrow> round_half_even y \<le> n"
  using round_half_even_mono [of y "of_int n"] by simp

lemma round_half_even_ge: "of_int n \<le> y \<Longrightarrow> n \<le> round_half_even y"
  using round_half_even_mono [of "of_int n" y] by simp

lemma ulp_exp_uminus [simp]: "ulp_exp (- x) = ulp_exp x"
  by (simp add: ulp_exp_def binade_def)

lemma round_double_uminus: "round_double (- x) = - round_double x"
  by (simp add: round_double_def round_half_even_uminus)

lemma ulp_pos [simp]: "0 < (2::real) powi e"
  by (simp add: zero_less_power_int)

lemma round_double_nonneg: "0 \<le> x \<Longrightarrow> 0 \<le> round_double x"
proof -
  assume "0 \<le> x"
  then have "0 \<le> x / 2 powi ulp_exp x" by simp
  then have "0 \<le> round_half_even (x / 2 powi ulp_exp x)"
    using round_half_even_ge [of 0] by simp
  then show ?thesis by (simp add: round_double_def)
qed

lemma ulp_exp_mono: "x \<noteq> 0 \<Longrightarrow> \<bar>x\<bar> \<le> \<bar>y\<bar> \<Longrightarrow> ulp_exp x \<le> ulp_exp y"
  using binade_mono [of x y] by (simp add: ulp_exp_def)

lemma round_double_upper:
  assumes "0 < x"
  shows "round_double x \<le> 2 powi (ulp_exp x + 53)"
proof -
  let ?e = "ulp_exp x"
  have "binade x + 1 \<le> ?e + 53" by (simp add: ulp_exp_def)
  then have "(2::real) powi (binade x + 1) \<le> 2 powi (?e + 53)"
    by (intro power_int_increasing) simp_all
  then have "x < 2 powi (?e + 53)"
    using binade_bounds(2) [of x] assms by simp
  also have "\<dots> = 2 powi ?e * 2 ^ 53"
    by (simp add: power_int_add)
  finally have "x / 2 powi ?e < of_int (2 ^ 53)"
    by (simp add: field_simps)
  then have "round_half_even (x / 2 powi ?e) \<le> 2 ^ 53"
    by (intro round_half_even_le) simp
  then have "real_of_int (round_half_even (x / 2 powi ?e)) \<le> of_int (2 ^ 53)"
    by (simp only: of_int_le_iff)
  then have "round_double x \<le> 2 ^ 53 * 2 powi ?e"
    using assms by (simp add: round_double_def)
  then show ?thesis by (simp add: power_int_add mult.commute)
qed

lemma round_double_lower:
  assumes "0 < y" "- 1074 < ulp_exp y"
  shows "2 powi (ulp_exp y + 52) \<le> round_double y"
proof -
  let ?e = "ulp_exp y"
  have b: "binade y = ?e + 52" using assms(2) by (simp add: ulp_exp_def max_def split: if_splits)
  have "2 powi ?e * 2 ^ 52 = (2::real) powi (?e + 52)"
    by (simp add: power_int_add)
  also have "\<dots> \<le> y"
    using binade_bounds(1) [of y] assms(1) b by simp
  finally have "of_int (2 ^ 52) \<le> y / 2 powi ?e"
    by (simp add: field_simps)
  then have "2 ^ 52 \<le> round_half_even (y / 2 powi ?e)"
    by (rule round_half_even_ge)
  then have "real_of_int (2 ^ 52) \<le> of_int (round_half_even (y / 2 powi ?e))"
    by (simp only: of_int_le_iff)
  then have "2 ^ 52 * 2 powi ?e \<le> round_double y"
    using assms(1) by (simp add: round_double_def)
  then show ?thesis by (simp add: power_int_add mult.commute)
qed

lemma round_double_mono_pos:
  assumes "0 < x" "x \<le> y"
  shows "round_double x \<le> round_double y"
proof -
  have le: "ulp_exp x \<le> ulp_exp y" using assms by (intro ulp_exp_mono) simp_all
  show ?thesis
  proof (cases "ulp_exp x = ulp_exp y")
    case True
    have "x / 2 powi ulp_exp y \<le> y / 2 powi ulp_exp y"
      using assms(2) by (simp add: divide_right_mono)
    then have "round_half_even (x / 2 powi ulp_exp y) \<le> round_half_even (y / 2 powi ulp_exp y)"
      by (rule round_half_even_mono)
    then show ?thesis
      using assms True by (simp add: round_double_def)
  next
    case False
    then have lt: "ulp_exp x + 53 \<le> ulp_exp y + 52" using le by simp
    have "- 1074 \<le> ulp_exp x" by (simp add: ulp_exp_def)
    then have "- 1074 < ulp_exp y" using False le by simp
    then have "2 powi (ulp_exp y + 52) \<le> round_double y"
      using assms by (intro round_double_lower) simp_all
    moreover have "(2::real) powi (ulp_exp x + 53) \<le> 2 powi (ulp_exp y + 52)"
      using lt by (intro power_int_increasing) simp_all
    ultimately show ?thesis
      using round_double_upper [OF assms(1)] by linarith
  qed
qed

lemma round_double_mono:
  assumes "x \<le> y"
  shows "round_double x \<le> round_double y"
proof -
  consider "0 < x" | "x \<le> 0" "0 \<le> y" | "y < 0" using assms by linarith
  then show ?thesis
  proof cases
    case 1
    then show ?thesis using assms by (rule round_double_mono_pos)
  next
    case 2
    have "0 \<le> round_double (- x)" using 2 by (intro round_double_nonneg) simp
    then have "round_double x \<le> 0" by (simp add: round_double_uminus)
    then show ?thesis using round_double_nonneg [OF 2(2)] by linarith
  next
    case 3
    then have "round_double (- y) \<le> round_double (- x)"
      using assms by (intro round_double_mono_pos) simp_all
    then show ?thesis by (simp add: round_double_uminus)
  qed
qed

lemma round_double_of_int:
  assumes "\<bar>n\<bar> < 2 ^ 53"
  shows "round_double (of_int n) = of_int n"
proof (cases "n = 0")
  case True
  then show ?thesis by (simp add: round_double_def)
next
  case False
  let ?x = "real_of_int n"
  let ?e = "ulp_exp ?x"
  have x: "?x \<noteq> 0" using False by simp
  have "real_of_int \<bar>n\<bar> < of_int (2 ^ 53)" using assms by (simp only: of_int_less_iff)
  then have lt: "\<bar>?x\<bar> < 2 powi 53" by simp
  have "binade ?x < 53"
  proof (rule ccontr)
    assume "\<not> binade ?x < 53"
    then have "(2::real) powi 53 \<le> 2 powi binade ?x"
      by (intro power_int_increasing) simp_all
    then show False using binade_bounds(1) [OF x] lt by linarith
  qed
  then have e: "?e \<le> 0" by (simp add: ulp_exp_def)
  have p: "(2::real) powi ?e = 1 / 2 ^ nat (- ?e)"
    using e power_int_minus_divide [of "2::real" "- ?e"]
    by (simp add: power_int_nonneg_exp)
  have "?x / 2 powi ?e = of_int (n * 2 ^ nat (- ?e))"
    by (simp add: p)
  then have "round_half_even (?x / 2 powi ?e) = n * 2 ^ nat (- ?e)"
    by (simp only: round_half_even_of_int)
  then show ?thesis
    using x by (simp add: round_double_def p)
qed

lemma float_mul_mono: "x \<le> y \<Longrightarrow> 0 \<le> c \<Longrightarrow> float_mul x c \<le> float_mul y c"
  by (simp add: float_mul_def round_double_mono mult_right_mono)

lemma int_of_float_mono: "x \<le> y \<Longrightarrow> int_of_float x \<le> int_of_float y"
proof -
  assume xy: "x \<le> y"
  consider "0 \<le> x" | "x < 0" "0 \<le> y" | "y < 0" using xy by linarith
  then show ?thesis
  proof cases
    case 1
    then show ?thesis using xy by (simp add: int_of_float_def floor_mono)
  next
    case 2
    then have "\<lceil>x\<rceil> \<le> 0" and "0 \<le> \<lfloor>y\<rfloor>" by (simp_all add: ceiling_le_zero)
    then have "\<lceil>x\<rceil> \<le> \<lfloor>y\<rfloor>" by (rule order_trans)
    then show ?thesis using 2 by (simp add: int_of_float_def)
  next
    case 3
    then show ?thesis using xy by (simp add: int_of_float_def ceiling_mono)
  qed
qed

lemma time_ms_mono: "s \<le> t \<Longrightarrow> time_ms s \<le> time_ms t"
  by (simp add: time_ms_def int_of_float_mono float_mul_mono)

lemma time_ms_of_int: "\<bar>n\<bar> < 2 ^ 53 \<Longrightarrow> now * 1000 = of_int n \<Longrightarrow> time_ms now = n"
  by (simp add: time_ms_def float_mul_def round_double_of_int int_of_float_def)

text \<open>
  The readings used below. At the double nearest to \<open>4.35\<close> the exact product lies
  below \<open>4350\<close> and the rounded product is \<open>4350\<close>.
\<close>

lemma time_ms_examples:
  "time_ms 1 = 1000"
  "time_ms 2 = 2000"
  "time_ms (5 / 2) = 2500"
  "time_ms double_4_35 = 4350"
  "\<lfloor>double_4_35 * 1000\<rfloor> = 4349"
  by code_simp+

section \<open>Dictionary updates\<close>

lemma map_of_dict_setitem: "map_of (dict_setitem d k v) = (map_of d)(k \<mapsto> v)"
  by (induction d k v rule: dict_setitem.induct) auto

lemma map_of_dict_update: "map_of (dict_update d e) = map_of d ++ map_of (rev e)"
proof (induction d e rule: dict_update.induct)
  case (1 d)
  then show ?case by simp
next
  case (2 d k v e)
  have "map_of (dict_update d ((k, v) # e)) = (map_of d)(k \<mapsto> v) ++ map_of (rev e)"
    by (simp only: dict_update.simps "2.IH" map_of_dict_setitem)
  also have "\<dots> = map_of d ++ ([k \<mapsto> v] ++ map_of (rev e))"
    by (simp add: map_add_upd_left fun_eq_iff map_add_def split: option.splits)
  also have "\<dots> = map_of d ++ map_of (rev ((k, v) # e))"
    by simp
  finally show ?case .
qed


lemma dict_setitem_fresh: "k \<notin> fst ` set d \<Longrightarrow> dict_setitem d k v = d @ [(k, v)]"
  by (induction d k v rule: dict_setitem.induct) auto

lemma map_of_dict_update_miss:
  "k \<notin> fst ` set e \<Longrightarrow> map_of (dict_update d e) k = map_of d k"
proof -
  assume "k \<notin> fst ` set e"
  then have "map_of (rev e) k = None"
    by (simp add: map_of_eq_None_iff)
  then show ?thesis
    by (simp add: map_of_dict_update map_add_def)
qed


section \<open>Single calls\<close>

lemma invoke_eq:
  "invoke m self now message a =
     Logger_log self now (method_name m) message (default_none a)"
  by (cases m) (simp_all add: info_def error_def debug_def warn_def)

lemma Logger_log_dispatched:
  "Logger_log self now level message a =
     (case log_entry self now level message a of
        Inl e \<Rightarrow> Inl e
      | Inr p \<Rightarrow> Inr (dispatched self p))"
  by (simp add: Logger_log_def dispatched_def send_no_wait_def split: sum.splits)

lemma log_entry_falsy:
  "py_bool a = Inr False \<Longrightarrow>
   log_entry self now level message a = Inr (base_entry self now level message)"
  by (simp add: log_entry_def)

lemma log_entry_items:
  "py_bool a = Inr True \<Longrightarrow> normalize_args a = Inr (Items d) \<Longrightarrow>
   log_entry self now level message a = Inr (dict_update (base_entry self now level message) d)"
  by (simp add: log_entry_def)

lemma log_entry_Inr:
  "log_entry self now level message a = Inr p \<Longrightarrow>
   p = dict_update (base_entry self now level message) (merged_items a)"
  by (auto simp: log_entry_def merged_items_def Let_def
      split: sum.splits if_splits update_source.splits)



lemma update_from_Inl_iff: "update_from d u = Inl e \<longleftrightarrow> u = Rejected e"
  by (cases u) auto

lemma log_entry_Inl_iff:
  "log_entry self now level message x = Inl e \<longleftrightarrow>
     py_bool x = Inl e \<or>
     py_bool x = Inr True \<and> (normalize_args x = Inl e \<or> normalize_args x = Inr (Rejected e))"
  by (auto simp: log_entry_def Let_def update_from_Inl_iff split: sum.splits)


lemma invoke_falsy:
  "py_bool (default_none a) = Inr False \<Longrightarrow>
   invoke m self now message a =
     Inr (dispatched self (base_entry self now (method_name m) message))"
  by (simp add: invoke_eq Logger_log_dispatched log_entry_falsy)

lemma invoke_items:
  "py_bool (default_none a) = Inr True \<Longrightarrow> normalize_args (default_none a) = Inr (Items d) \<Longrightarrow>
   invoke m self now message a =
     Inr (dispatched self (dict_update (base_entry self now (method_name m) message) d))"
  by (simp add: invoke_eq Logger_log_dispatched log_entry_items)

lemma invoke_Inr_payload:
  assumes "invoke m self now message a = Inr lg'"
  shows "lg' = dispatched self (dict_update (base_entry self now (method_name m) message)
                                  (merged_items (default_none a)))"
  using assms log_entry_Inr [of self now "method_name m" message "default_none a"]
  by (auto simp: invoke_eq Logger_log_dispatched split: sum.splits)




lemma sent_dispatched:
  "sent (rpc (dispatched self p)) = sent (rpc self) @ [(''log'', p)]"
  "trace_id (dispatched self p) = trace_id self"
  "flows (dispatched self p) = flows self"
  by (simp_all add: dispatched_def)

lemma example_logger_simps:
  "trace_id example_logger = PStr ''t1''"
  "flows example_logger = PList [PStr ''f1'']"
  "rpc example_logger = \<lparr>sent = []\<rparr>"
  by (simp_all add: example_logger_def Logger_init_def)

lemma probe_simps:
  "hasattr_dict PNone = Inr False" "isinstance_dict PNone = Inr False"
  "hasattr_dict (PBool b) = Inr False" "isinstance_dict (PBool b) = Inr False"
  "hasattr_dict (PInt i) = Inr False" "isinstance_dict (PInt i) = Inr False"
  "hasattr_dict (PFloat x) = Inr False" "isinstance_dict (PFloat x) = Inr False"
  "hasattr_dict (PStr s) = Inr False" "isinstance_dict (PStr s) = Inr False"
  "hasattr_dict (PList xs) = Inr False" "isinstance_dict (PList xs) = Inr False"
  "hasattr_dict (PTuple xs) = Inr False" "isinstance_dict (PTuple xs) = Inr False"
  "hasattr_dict (PDict d) = Inr False" "isinstance_dict (PDict d) = Inr True"
  by (simp_all add: hasattr_dict_def isinstance_dict_def)

lemma merged_items_simps:
  "merged_items PNone = []"
  "merged_items (PInt i) = (if i = 0 then [] else [(''data'', PInt i)])"
  "merged_items (PDict d) = d"
  by (simp_all add: merged_items_def normalize_args_def probe_simps)

lemma extra_keys_simps:
  "extra_keys None = {}"
  "extra_keys (Some (PInt i)) = (if i = 0 then {} else {''data''})"
  "extra_keys (Some (PDict d)) = fst ` set d"
  by (simp_all add: extra_keys_def default_none_def merged_items_simps)

lemmas eval_defs = info_def error_def debug_def warn_def Logger_log_def log_entry_def
  default_none_def send_no_wait_def normalize_args_def hasattr_dict_def vars_def
  isinstance_dict_def example_logger_def Logger_init_def base_entry_def time_ms_examples
  call_result_def after_call_def

section \<open>Sequences of calls\<close>

lemma call_payload_dispatched: "call_payload (dispatched self p) c = call_payload self c"
  by (simp add: call_payload_def base_entry_def dispatched_def)

lemma call_returns_iff:
  "call_returns self c \<longleftrightarrow>
     (\<forall>e. log_entry self (call_now c) (method_name (call_method c)) (call_message c)
            (default_none (call_args c)) \<noteq> Inl e)"
  by (auto simp: call_returns_def call_result_def invoke_eq Logger_log_dispatched
      split: sum.splits)

lemma call_returns_indep: "call_returns self' = call_returns self"
  by (rule ext) (simp add: call_returns_iff log_entry_Inl_iff)

lemma after_call_cases:
  "after_call self (call_result self c) =
     (if call_returns self c then dispatched self (call_payload self c) else self)"
proof (cases "call_result self c")
  case (Inl e)
  then show ?thesis by (simp add: after_call_def call_returns_def)
next
  case (Inr s)
  then have "s = dispatched self (call_payload self c)"
    using invoke_Inr_payload [of "call_method c" self "call_now c" "call_message c" "call_args c" s]
    by (simp add: call_result_def call_payload_def)
  then show ?thesis using Inr by (simp add: after_call_def call_returns_def)
qed

lemma run_sent:
  "trace_id (run self cs) = trace_id self \<and> flows (run self cs) = flows self \<and>
   sent (rpc (run self cs)) =
     sent (rpc self) @ map (\<lambda>c. (''log'', call_payload self c)) (filter (call_returns self) cs)"
proof (induction cs arbitrary: self)
  case Nil
  then show ?case by simp
next
  case (Cons c cs)
  show ?case
  proof (cases "call_returns self c")
    case True
    let ?s = "dispatched self (call_payload self c)"
    have "run self (c # cs) = run ?s cs"
      using True by (simp add: after_call_cases)
    moreover have "filter (call_returns ?s) cs = filter (call_returns self) cs"
      by (simp add: call_returns_indep [of ?s self])
    ultimately show ?thesis
      using Cons.IH [of ?s] True
      by (simp add: sent_dispatched call_payload_dispatched)
  next
    case False
    then have "run self (c # cs) = run self cs"
      by (simp add: after_call_cases)
    then show ?thesis using Cons.IH [of self] False by simp
  qed
qed

lemma run_new_payloads:
  "new_payloads self (run self cs) = map (call_payload self) (filter (call_returns self) cs)"
  using run_sent [of self cs] by (simp add: new_payloads_def comp_def)

lemma sorted_map_time_ms:
  "sorted (map call_now cs) \<Longrightarrow> sorted (map (\<lambda>c. time_ms (call_now c)) cs)"
  by (induction cs) (auto simp: time_ms_mono)

section \<open>Construction\<close>

text \<open>
  C8: construction never fails and validates nothing: whatever the trace id, the flows
  and the sender are, the new logger holds exactly these three values; an empty trace id
  and an empty list of flows are stored as they are.
\<close>

theorem C8_init_stores_verbatim:
  "trace_id (Logger_init tid fl r) = tid \<and>
   flows (Logger_init tid fl r) = fl \<and>
   rpc (Logger_init tid fl r) = r \<and>
   Logger_init (PStr []) (PList []) r = \<lparr>trace_id = PStr [], flows = PList [], rpc = r\<rparr>"
  by (simp add: Logger_init_def)

section \<open>The merge of the extra value\<close>

text \<open>
  C5: a call without an extra argument, with \<^verbatim>\<open>None\<close> or with an empty dictionary
  dispatches exactly the five base fields \<open>level\<close>, \<open>time\<close>, \<open>traceId\<close>,
  \<open>flows\<close> and \<open>msg\<close>, with \<open>msg\<close> the message, and no other key.
\<close>

theorem C5_no_extra_five_base_fields:
  "invoke m self now message None =
     Inr (dispatched self (base_entry self now (method_name m) message)) \<and>
   invoke m self now message (Some PNone) =
     Inr (dispatched self (base_entry self now (method_name m) message)) \<and>
   invoke m self now message (Some (PDict [])) =
     Inr (dispatched self (base_entry self now (method_name m) message)) \<and>
   map fst (base_entry self now (method_name m) message) =
     [''level'', ''time'', ''traceId'', ''flows'', ''msg''] \<and>
   map_of (base_entry self now (method_name m) message) ''msg'' = Some message"
proof -
  have n: "py_bool (default_none None) = Inr False"
    and p: "py_bool (default_none (Some PNone)) = Inr False"
    and d: "py_bool (default_none (Some (PDict []))) = Inr False"
    by (simp_all add: default_none_def)
  show ?thesis
    using invoke_falsy [OF n, of m self now message]
      invoke_falsy [OF p, of m self now message]
      invoke_falsy [OF d, of m self now message]
    by (simp add: base_entry_def)
qed

text \<open>
  C1, as stated, fails on the code: the guard \<^verbatim>\<open>if args:\<close> is Python's truth
  test, so a scalar that is present and not an empty container, but falsy, such as the
  integer \<open>0\<close>, is not wrapped: the payload of \<^verbatim>\<open>logger.info("hello", 0)\<close> has
  the five base fields and no \<open>data\<close> entry.
\<close>

theorem C1_counterexample_zero:
  "info example_logger 1 (PStr ''hello'') (Some (PInt 0)) =
     Inr \<lparr>trace_id = PStr ''t1'', flows = PList [PStr ''f1''],
          rpc = \<lparr>sent = [(''log'',
            [(''level'', PStr ''info''), (''time'', PInt 1000), (''traceId'', PStr ''t1''),
             (''flows'', PList [PStr ''f1'']), (''msg'', PStr ''hello'')])]\<rparr>\<rparr> \<and>
   info example_logger 1 (PStr ''hello'') (Some (PInt 0)) \<noteq>
     Inr (dispatched example_logger
            (base_entry example_logger 1 ''info'' (PStr ''hello'') @ [(''data'', PInt 0)]))"
  by (simp add: eval_defs dispatched_def)

text \<open>
  C1, amended: for every call of any of the four methods with an extra value that is
  truthy and is neither an object with a \<^verbatim>\<open>__dict__\<close> nor a \<^verbatim>\<open>dict\<close> (both tests
  of the code return false), the dispatched payload is the five base fields followed by
  the one entry that maps \<open>data\<close> to the extra value.
\<close>

theorem C1_truthy_plain_value_wrapped_as_data:
  "py_bool x = Inr True \<Longrightarrow> hasattr_dict x = Inr False \<Longrightarrow> isinstance_dict x = Inr False \<Longrightarrow>
   invoke m self now message (Some x) =
     Inr (dispatched self (base_entry self now (method_name m) message @ [(''data'', x)]))"
proof -
  assume t: "py_bool x = Inr True" and h: "hasattr_dict x = Inr False"
    and i: "isinstance_dict x = Inr False"
  have n: "normalize_args (default_none (Some x)) = Inr (Items [(''data'', x)])"
    using h i by (simp add: normalize_args_def default_none_def)
  have "''data'' \<notin> fst ` set (base_entry self now (method_name m) message)"
    by (simp add: base_entry_def)
  then have "dict_update (base_entry self now (method_name m) message) [(''data'', x)] =
      base_entry self now (method_name m) message @ [(''data'', x)]"
    by (simp add: dict_setitem_fresh)
  then show ?thesis
    using invoke_items [OF _ n, of m self now message] t
    by (simp add: default_none_def)
qed

theorem C1_witness_info_42:
  "info example_logger 1 (PStr ''hello'') (Some (PInt 42)) =
     Inr \<lparr>trace_id = PStr ''t1'', flows = PList [PStr ''f1''],
          rpc = \<lparr>sent = [(''log'',
            [(''level'', PStr ''info''), (''time'', PInt 1000), (''traceId'', PStr ''t1''),
             (''flows'', PList [PStr ''f1'']), (''msg'', PStr ''hello''),
             (''data'', PInt 42)])]\<rparr>\<rparr>"
  using C1_truthy_plain_value_wrapped_as_data
          [of "PInt 42" Info example_logger 1 "PStr ''hello''"]
  by (simp add: example_logger_def Logger_init_def dispatched_def base_entry_def
        time_ms_examples probe_simps)

text \<open>
  C10: an extra value that is present but falsy (the integer \<open>0\<close>, the empty string,
  \<open>False\<close>, an empty list, and likewise \<open>None\<close> and the empty dictionary) skips the
  merge: the payload is exactly the five base fields, and no \<open>data\<close> entry is added.
\<close>

theorem C10_falsy_extra_skips_merge:
  "py_bool x = Inr False \<Longrightarrow>
   invoke m self now message (Some x) =
     Inr (dispatched self (base_entry self now (method_name m) message)) \<and>
   map fst (base_entry self now (method_name m) message) =
     [''level'', ''time'', ''traceId'', ''flows'', ''msg''] \<and>
   map_of (base_entry self now (method_name m) message) ''data'' = None"
proof -
  assume f: "py_bool x = Inr False"
  show ?thesis
    using invoke_falsy [of "Some x" m self now message] f
    by (simp add: default_none_def base_entry_def)
qed

theorem C10_witness_falsy_values:
  "warn example_logger 2 (PStr ''w'') (Some (PStr [])) =
     Inr (dispatched example_logger (base_entry example_logger 2 ''warn'' (PStr ''w''))) \<and>
   debug example_logger 2 (PStr ''d'') (Some (PBool False)) =
     Inr (dispatched example_logger (base_entry example_logger 2 ''debug'' (PStr ''d''))) \<and>
   error example_logger 2 (PStr ''e'') (Some (PList [])) =
     Inr (dispatched example_logger (base_entry example_logger 2 ''error'' (PStr ''e''))) \<and>
   info example_logger 2 (PStr ''i'') (Some (PInt 0)) =
     Inr (dispatched example_logger (base_entry example_logger 2 ''info'' (PStr ''i'')))"
  using C10_falsy_extra_skips_merge [of "PStr []" Warn example_logger 2 "PStr ''w''"]
    C10_falsy_extra_skips_merge [of "PBool False" Debug example_logger 2 "PStr ''d''"]
    C10_falsy_extra_skips_merge [of "PList []" Error example_logger 2 "PStr ''e''"]
    C10_falsy_extra_skips_merge [of "PInt 0" Info example_logger 2 "PStr ''i''"]
  by simp




section \<open>The dispatch and its failures\<close>

text \<open>
  C3, as stated, fails on the code: the truth test \<^verbatim>\<open>if args:\<close> runs before the
  sender is called, and for an object whose \<^verbatim>\<open>__bool__\<close> raises the exception
  leaves \<^verbatim>\<open>_log\<close> with nothing sent.
\<close>

theorem C3_counterexample_no_dispatch:
  "info example_logger 1 (PStr ''hello'') (Some raising_object) = Inl ValueError \<and>
   sent (rpc (after_call example_logger
     (info example_logger 1 (PStr ''hello'') (Some raising_object)))) = []"
  by (simp add: eval_defs raising_object_def)

text \<open>
  C3, amended: for every logger and every call of one of the four methods, the trace id
  and the flows of the logger are unchanged and the sender's earlier record is kept; a
  call that returns has made exactly one more call of the sender, with the event name
  \<open>log\<close>, and a call that raises has made none.
\<close>

theorem C3_one_dispatch_nothing_else:
  "trace_id (after_call self (invoke m self now message a)) = trace_id self \<and>
   flows (after_call self (invoke m self now message a)) = flows self \<and>
   (case invoke m self now message a of
      Inl e \<Rightarrow> sent (rpc (after_call self (invoke m self now message a))) = sent (rpc self)
    | Inr lg' \<Rightarrow>
        \<exists>p. sent (rpc (after_call self (invoke m self now message a))) =
              sent (rpc self) @ [(''log'', p)])"
proof (cases "invoke m self now message a")
  case (Inl e)
  then show ?thesis by (simp add: after_call_def)
next
  case (Inr lg')
  then show ?thesis
    using invoke_Inr_payload [OF Inr] by (simp add: after_call_def sent_dispatched)
qed

theorem C3_witness_one_dispatch:
  "(\<exists>p. sent (rpc (after_call example_logger
      (debug example_logger 1 (PStr ''hello'') (Some (PDict [(''userId'', PInt 42)]))))) =
      [(''log'', p)]) \<and>
   sent (rpc (after_call example_logger
      (debug example_logger 1 (PStr ''hello'') (Some odd_dict_object)))) = []"
  using C3_one_dispatch_nothing_else
          [of example_logger Debug 1 "PStr ''hello''" "Some (PDict [(''userId'', PInt 42)])"]
    C3_one_dispatch_nothing_else
          [of example_logger Debug 1 "PStr ''hello''" "Some odd_dict_object"]
  by (simp add: eval_defs odd_dict_object_def)




text \<open>
  C4, as stated, fails on the code: the merge overwrites base fields, so an extra
  dictionary with a key \<open>level\<close> replaces the name of the method in the payload.
\<close>

theorem C4_counterexample_level_overwritten:
  "info example_logger 1 (PStr ''hello'') (Some (PDict [(''level'', PStr ''error'')])) =
     Inr \<lparr>trace_id = PStr ''t1'', flows = PList [PStr ''f1''],
          rpc = \<lparr>sent = [(''log'',
            [(''level'', PStr ''error''), (''time'', PInt 1000), (''traceId'', PStr ''t1''),
             (''flows'', PList [PStr ''f1'']), (''msg'', PStr ''hello'')])]\<rparr>\<rparr>"
  by (simp add: eval_defs)

text \<open>
  C4, amended: for every call that dispatches a payload and whose merged extra fields
  have no key \<open>level\<close>, the payload's \<open>level\<close> is the name of the method invoked.
\<close>

theorem C4_level_is_method_name:
  "invoke m self now message a = Inr lg' \<Longrightarrow> ''level'' \<notin> extra_keys a \<Longrightarrow>
   \<exists>p. sent (rpc lg') = sent (rpc self) @ [(''log'', p)] \<and>
       map_of p ''level'' = Some (PStr (method_name m))"
proof -
  assume r: "invoke m self now message a = Inr lg'" and k: "''level'' \<notin> extra_keys a"
  have "map_of (dict_update (base_entry self now (method_name m) message)
          (merged_items (default_none a))) ''level'' = Some (PStr (method_name m))"
    using k by (simp add: extra_keys_def map_of_dict_update_miss base_entry_def)
  then show ?thesis
    using invoke_Inr_payload [OF r] by (auto simp: sent_dispatched)
qed

theorem C4_witness_warn:
  "warn example_logger 1 (PStr ''slow'') (Some (PDict [(''userId'', PInt 42)])) =
     Inr \<lparr>trace_id = PStr ''t1'', flows = PList [PStr ''f1''],
          rpc = \<lparr>sent = [(''log'',
            [(''level'', PStr ''warn''), (''time'', PInt 1000), (''traceId'', PStr ''t1''),
             (''flows'', PList [PStr ''f1'']), (''msg'', PStr ''slow''),
             (''userId'', PInt 42)])]\<rparr>\<rparr> \<and>
   ''level'' \<notin> extra_keys (Some (PDict [(''userId'', PInt 42)])) \<and>
   map_of [(''level'', PStr ''warn''), (''time'', PInt 1000), (''traceId'', PStr ''t1''),
           (''flows'', PList [PStr ''f1'']), (''msg'', PStr ''slow''),
           (''userId'', PInt 42)] ''level'' = Some (PStr ''warn'')"
proof -
  let ?a = "Some (PDict [(''userId'', PInt 42)])"
  let ?lg = "\<lparr>trace_id = PStr ''t1'', flows = PList [PStr ''f1''],
          rpc = \<lparr>sent = [(''log'',
            [(''level'', PStr ''warn''), (''time'', PInt 1000), (''traceId'', PStr ''t1''),
             (''flows'', PList [PStr ''f1'']), (''msg'', PStr ''slow''),
             (''userId'', PInt 42)])]\<rparr>\<rparr>"
  have r: "invoke Warn example_logger 1 (PStr ''slow'') ?a = Inr ?lg"
    by (simp add: eval_defs)
  have k: "''level'' \<notin> extra_keys ?a"
    by (simp add: extra_keys_simps)
  show ?thesis
    using C4_level_is_method_name [OF r k] r k by simp
qed

section \<open>Successive calls on one logger\<close>

text \<open>
  C6, as stated, fails on the code: an extra dictionary with the keys \<open>traceId\<close> and
  \<open>flows\<close> replaces both fields in the payload of that call.
\<close>

theorem C6_counterexample_trace_id_overwritten:
  "error (Logger_init (PStr ''t1'') (PList [PStr ''f1'']) \<lparr>sent = []\<rparr>) 1 (PStr ''hello'')
     (Some (PDict [(''traceId'', PStr ''spoofed''), (''flows'', PList [])])) =
     Inr \<lparr>trace_id = PStr ''t1'', flows = PList [PStr ''f1''],
          rpc = \<lparr>sent = [(''log'',
            [(''level'', PStr ''error''), (''time'', PInt 1000), (''traceId'', PStr ''spoofed''),
             (''flows'', PList []), (''msg'', PStr ''hello'')])]\<rparr>\<rparr>"
  by (simp add: eval_defs)

text \<open>
  C6, amended: after any sequence of calls on a logger, raising calls included, the
  logger's trace id and flows are the values passed at construction, and every payload
  dispatched by a call whose merged extra fields have no key \<open>traceId\<close> (no key
  \<open>flows\<close>) carries the construction value of \<open>traceId\<close> (of \<open>flows\<close>), whatever
  the calls before it were. The payloads dispatched are those of the calls that return,
  in their order.
\<close>

theorem C6_trace_id_and_flows_fixed:
  "trace_id (run (Logger_init tid fl r) cs) = tid \<and>
   flows (run (Logger_init tid fl r) cs) = fl \<and>
   list_all2
     (\<lambda>c p. (''traceId'' \<notin> extra_keys (call_args c) \<longrightarrow> map_of p ''traceId'' = Some tid) \<and>
            (''flows'' \<notin> extra_keys (call_args c) \<longrightarrow> map_of p ''flows'' = Some fl))
     (filter (call_returns (Logger_init tid fl r)) cs)
     (new_payloads (Logger_init tid fl r) (run (Logger_init tid fl r) cs))"
proof -
  let ?self = "Logger_init tid fl r"
  have f: "trace_id ?self = tid" "flows ?self = fl"
    by (simp_all add: Logger_init_def)
  have p: "''traceId'' \<notin> extra_keys (call_args c) \<Longrightarrow>
             map_of (call_payload ?self c) ''traceId'' = Some tid"
    and q: "''flows'' \<notin> extra_keys (call_args c) \<Longrightarrow>
             map_of (call_payload ?self c) ''flows'' = Some fl" for c
    by (simp_all add: call_payload_def extra_keys_def map_of_dict_update_miss base_entry_def f)
  have "list_all2
     (\<lambda>c p. (''traceId'' \<notin> extra_keys (call_args c) \<longrightarrow> map_of p ''traceId'' = Some tid) \<and>
            (''flows'' \<notin> extra_keys (call_args c) \<longrightarrow> map_of p ''flows'' = Some fl))
     (filter (call_returns ?self) cs)
     (map (call_payload ?self) (filter (call_returns ?self) cs))"
    by (simp add: list_all2_map2 list_all2_same p q)
  then show ?thesis
    using run_sent [of ?self cs] run_new_payloads [of ?self cs] f by simp
qed

theorem C6_witness_three_calls:
  "run (Logger_init (PStr ''t1'') (PList [PStr ''f1'']) \<lparr>sent = []\<rparr>)
     [\<lparr>call_method = Debug, call_now = 1, call_message = PStr ''a'',
        call_args = Some (PDict [(''traceId'', PStr ''spoofed'')])\<rparr>,
      \<lparr>call_method = Warn, call_now = 2, call_message = PStr ''x'',
        call_args = Some raising_object\<rparr>,
      \<lparr>call_method = Info, call_now = 2, call_message = PStr ''b'', call_args = Some (PInt 7)\<rparr>] =
     \<lparr>trace_id = PStr ''t1'', flows = PList [PStr ''f1''],
      rpc = \<lparr>sent =
        [(''log'', [(''level'', PStr ''debug''), (''time'', PInt 1000),
                    (''traceId'', PStr ''spoofed''), (''flows'', PList [PStr ''f1'']),
                    (''msg'', PStr ''a'')]),
         (''log'', [(''level'', PStr ''info''), (''time'', PInt 2000),
                    (''traceId'', PStr ''t1''), (''flows'', PList [PStr ''f1'']),
                    (''msg'', PStr ''b''), (''data'', PInt 7)])]\<rparr>\<rparr> \<and>
   ''traceId'' \<notin> extra_keys (Some (PInt 7)) \<and> ''flows'' \<notin> extra_keys (Some (PInt 7)) \<and>
   ''flows'' \<notin> extra_keys (Some (PDict [(''traceId'', PStr ''spoofed'')]))"
proof -
  let ?cs = "[\<lparr>call_method = Debug, call_now = 1, call_message = PStr ''a'',
        call_args = Some (PDict [(''traceId'', PStr ''spoofed'')])\<rparr>,
      \<lparr>call_method = Warn, call_now = 2, call_message = PStr ''x'',
        call_args = Some raising_object\<rparr>,
      \<lparr>call_method = Info, call_now = 2, call_message = PStr ''b'', call_args = Some (PInt 7)\<rparr>]"
  have k: "''traceId'' \<notin> extra_keys (Some (PInt 7))" "''flows'' \<notin> extra_keys (Some (PInt 7))"
    "''flows'' \<notin> extra_keys (Some (PDict [(''traceId'', PStr ''spoofed'')]))"
    by (simp_all add: extra_keys_simps)
  show ?thesis
    using C6_trace_id_and_flows_fixed
            [of "PStr ''t1''" "PList [PStr ''f1'']" "\<lparr>sent = []\<rparr>" ?cs] k
    by (simp add: eval_defs raising_object_def)
qed

text \<open>
  C9, as stated, fails on the code: an extra dictionary with a key \<open>time\<close> replaces
  the captured time, so a later call can dispatch a smaller \<open>time\<close> than an earlier one.
\<close>

theorem C9_counterexample_time_overwritten:
  "run example_logger
     [\<lparr>call_method = Info, call_now = 1, call_message = PStr ''first'', call_args = None\<rparr>,
      \<lparr>call_method = Info, call_now = 2, call_message = PStr ''second'',
        call_args = Some (PDict [(''time'', PInt 0)])\<rparr>] =
     \<lparr>trace_id = PStr ''t1'', flows = PList [PStr ''f1''],
      rpc = \<lparr>sent =
        [(''log'', [(''level'', PStr ''info''), (''time'', PInt 1000),
                    (''traceId'', PStr ''t1''), (''flows'', PList [PStr ''f1'']),
                    (''msg'', PStr ''first'')]),
         (''log'', [(''level'', PStr ''info''), (''time'', PInt 0),
                    (''traceId'', PStr ''t1''), (''flows'', PList [PStr ''f1'']),
                    (''msg'', PStr ''second'')])]\<rparr>\<rparr>"
  by (simp add: eval_defs)

text \<open>
  C9, amended: for every sequence of calls on one logger made at non-decreasing clock
  readings, raising calls included, none of whose merged extra fields has a key
  \<open>time\<close>, the payloads dispatched are those of the calls that return, the \<open>time\<close>
  of each is the integer \<^verbatim>\<open>int(now * 1000)\<close> of its call's clock reading \<open>now\<close>,
  computed on doubles, and these integers are non-decreasing along the sequence.
\<close>

theorem C9_time_non_decreasing:
  "sorted (map call_now cs) \<Longrightarrow>
   \<forall>c \<in> set cs. ''time'' \<notin> extra_keys (call_args c) \<Longrightarrow>
   map (\<lambda>p. map_of p ''time'') (new_payloads self (run self cs)) =
     map (\<lambda>c. Some (PInt (time_ms (call_now c)))) (filter (call_returns self) cs) \<and>
   sorted (map (\<lambda>c. time_ms (call_now c)) (filter (call_returns self) cs))"
proof -
  assume s: "sorted (map call_now cs)"
    and k: "\<forall>c \<in> set cs. ''time'' \<notin> extra_keys (call_args c)"
  have "map_of (call_payload self c) ''time'' = Some (PInt (time_ms (call_now c)))"
    if "c \<in> set cs" for c
    using k that
    by (simp add: call_payload_def extra_keys_def map_of_dict_update_miss base_entry_def)
  moreover have "sorted (map (\<lambda>c. time_ms (call_now c)) (filter (call_returns self) cs))"
    using sorted_map_time_ms [OF s] by (rule sorted_filter)
  ultimately show ?thesis
    by (simp add: run_new_payloads)
qed

theorem C9_witness_four_calls:
  "sorted (map call_now
     [\<lparr>call_method = Info, call_now = 1, call_message = PStr ''a'', call_args = None\<rparr>,
      \<lparr>call_method = Warn, call_now = 1, call_message = PStr ''b'', call_args = Some (PInt 7)\<rparr>,
      \<lparr>call_method = Debug, call_now = 2, call_message = PStr ''x'',
        call_args = Some odd_dict_object\<rparr>,
      \<lparr>call_method = Error, call_now = double_4_35, call_message = PStr ''c'',
        call_args = Some (PDict [(''userId'', PInt 42)])\<rparr>]) \<and>
   map (\<lambda>p. map_of p ''time'') (new_payloads example_logger (run example_logger
     [\<lparr>call_method = Info, call_now = 1, call_message = PStr ''a'', call_args = None\<rparr>,
      \<lparr>call_method = Warn, call_now = 1, call_message = PStr ''b'', call_args = Some (PInt 7)\<rparr>,
      \<lparr>call_method = Debug, call_now = 2, call_message = PStr ''x'',
        call_args = Some odd_dict_object\<rparr>,
      \<lparr>call_method = Error, call_now = double_4_35, call_message = PStr ''c'',
        call_args = Some (PDict [(''userId'', PInt 42)])\<rparr>])) =
     [Some (PInt 1000), Some (PInt 1000), Some (PInt 4350)]"
proof -
  let ?cs = "[\<lparr>call_method = Info, call_now = 1, call_message = PStr ''a'', call_args = None\<rparr>,
      \<lparr>call_method = Warn, call_now = 1, call_message = PStr ''b'', call_args = Some (PInt 7)\<rparr>,
      \<lparr>call_method = Debug, call_now = 2, call_message = PStr ''x'',
        call_args = Some odd_dict_object\<rparr>,
      \<lparr>call_method = Error, call_now = double_4_35, call_message = PStr ''c'',
        call_args = Some (PDict [(''userId'', PInt 42)])\<rparr>]"
  have d: "(2::real) \<le> double_4_35"
    by (simp add: double_4_35_def)
  have s: "sorted (map call_now ?cs)"
    using d by simp
  have o: "extra_keys (Some odd_dict_object) = {}"
    by (simp add: extra_keys_def merged_items_def default_none_def normalize_args_def
        hasattr_dict_def vars_def odd_dict_object_def)
  have k: "\<forall>c \<in> set ?cs. ''time'' \<notin> extra_keys (call_args c)"
    by (simp add: extra_keys_simps o)
  have r: "filter (call_returns example_logger) ?cs =
      [\<lparr>call_method = Info, call_now = 1, call_message = PStr ''a'', call_args = None\<rparr>,
       \<lparr>call_method = Warn, call_now = 1, call_message = PStr ''b'', call_args = Some (PInt 7)\<rparr>,
       \<lparr>call_method = Error, call_now = double_4_35, call_message = PStr ''c'',
         call_args = Some (PDict [(''userId'', PInt 42)])\<rparr>]"
    by (simp add: call_returns_def eval_defs odd_dict_object_def)
  show ?thesis
    using C9_time_non_decreasing [OF s k, of example_logger] s r
    by (simp add: time_ms_examples)
qed

end
